theory Spec2Isabelle
  imports Main
begin

section \<open>Python values used by the night-plan parser\<close>

text \<open>
  The parser (\<^verbatim>\<open>src/lib/parser.py\<close>) works on Python \<^verbatim>\<open>str\<close> values and lists of them.
  A \<^typ>\<open>string\<close> is a list of \<^typ>\<open>char\<close>; a \<^typ>\<open>char\<close> stands for the code point of the
  same number, so the model covers text whose code points are below 256.  The character
  classes below are those of Python's \<^verbatim>\<open>str.isspace\<close>, \<^verbatim>\<open>str.isdigit\<close> and
  \<^verbatim>\<open>str.lower\<close> on that range.  Every exception the source can raise is a value of
  \<open>error\<close>; a computation that may raise returns \<open>error + 'a\<close>.
\<close>

datatype error = IndexError | NameError

definition isspace :: "char \<Rightarrow> bool" where
  "isspace c =
     (let n = (of_char c :: nat)
      in (9 \<le> n \<and> n \<le> 13) \<or> (28 \<le> n \<and> n \<le> 32) \<or> n = 133 \<or> n = 160)"

definition isdigit :: "char \<Rightarrow> bool" where
  "isdigit c =
     (let n = (of_char c :: nat)
      in (48 \<le> n \<and> n \<le> 57) \<or> n = 178 \<or> n = 179 \<or> n = 185)"

definition lower_char :: "char \<Rightarrow> char" where
  "lower_char c =
     (let n = (of_char c :: nat)
      in if (65 \<le> n \<and> n \<le> 90) \<or> (192 \<le> n \<and> n \<le> 214) \<or> (216 \<le> n \<and> n \<le> 222)
         then char_of (n + 32) else c)"

definition lower :: "string \<Rightarrow> string" where
  "lower s = map lower_char s"

text \<open>\<^verbatim>\<open>s.startswith(p)\<close>, and \<^verbatim>\<open>sub in s\<close> on strings (a contiguous occurrence).\<close>

fun startswith :: "string \<Rightarrow> string \<Rightarrow> bool" where
  "startswith s [] = True"
| "startswith [] (p # ps) = False"
| "startswith (c # cs) (p # ps) = (c = p \<and> startswith cs ps)"

fun str_in :: "string \<Rightarrow> string \<Rightarrow> bool" where
  "str_in sub [] = (sub = [])"
| "str_in sub (c # cs) = (startswith (c # cs) sub \<or> str_in sub cs)"

text \<open>
  \<^verbatim>\<open>s.split()\<close>: the maximal runs of non-whitespace characters, in order.
  \<open>tokens tok s\<close> reads \<open>s\<close> with \<open>tok\<close> the token read so far.
\<close>

fun tokens :: "string \<Rightarrow> string \<Rightarrow> string list" where
  "tokens tok [] = (if tok = [] then [] else [tok])"
| "tokens tok (c # cs) =
     (if isspace c then (if tok = [] then tokens [] cs else tok # tokens [] cs)
      else tokens (tok @ [c]) cs)"

definition str_split :: "string \<Rightarrow> string list" where
  "str_split s = tokens [] s"

text \<open>\<^verbatim>\<open>s.split(sep)\<close> for a one-character separator: empty fields are kept.\<close>

fun split_sep :: "char \<Rightarrow> string \<Rightarrow> string list" where
  "split_sep sep [] = [[]]"
| "split_sep sep (c # cs) =
     (if c = sep then [] # split_sep sep cs
      else (case split_sep sep cs of [] \<Rightarrow> [[c]] | f # fs \<Rightarrow> (c # f) # fs))"

definition strip :: "string \<Rightarrow> string" where
  "strip s = rev (dropWhile isspace (rev (dropWhile isspace s)))"

text \<open>\<^verbatim>\<open>line.replace('\n', '')\<close>.\<close>

definition replace_newline :: "string \<Rightarrow> string" where
  "replace_newline line = filter (\<lambda>c. c \<noteq> CHR 0x0A) line"

text \<open>\<^verbatim>\<open>xs[i]\<close> for \<open>i \<ge> 0\<close>: IndexError out of range.\<close>

definition item :: "'a list \<Rightarrow> nat \<Rightarrow> error + 'a" where
  "item xs i = (if i < length xs then Inr (xs ! i) else Inl IndexError)"

text \<open>\<^verbatim>\<open>xs[a:b]\<close> for \<open>a, b \<ge> 0\<close>: empty when \<open>b \<le> a\<close>, cut at the end of the list.\<close>

definition slice :: "'a list \<Rightarrow> nat \<Rightarrow> nat \<Rightarrow> 'a list" where
  "slice xs a b = take (b - a) (drop a xs)"

text \<open>
  A list comprehension whose element expression may raise: the first exception ends it.
\<close>

fun collect :: "('a \<Rightarrow> error + 'b) \<Rightarrow> 'a list \<Rightarrow> error + 'b list" where
  "collect f [] = Inr []"
| "collect f (x # xs) =
     (case f x of
        Inl e \<Rightarrow> Inl e
      | Inr y \<Rightarrow> (case collect f xs of Inl e \<Rightarrow> Inl e | Inr ys \<Rightarrow> Inr (y # ys)))"

text \<open>
  A \<^verbatim>\<open>dict\<close> keeps its keys in insertion order; storing under a key already present
  overwrites the value in place.
\<close>

type_synonym ('k, 'v) dict = "('k \<times> 'v) list"

fun setitem :: "('k, 'v) dict \<Rightarrow> 'k \<Rightarrow> 'v \<Rightarrow> ('k, 'v) dict" where
  "setitem [] k v = [(k, v)]"
| "setitem ((k', v') # d) k v = (if k' = k then (k, v) # d else (k', v') # setitem d k v)"

text \<open>\<^verbatim>\<open>{k: v for (k, v) in pairs}\<close>.\<close>

definition dict_of :: "('k \<times> 'v) list \<Rightarrow> ('k, 'v) dict" where
  "dict_of pairs = fold (\<lambda>(k, v) d. setitem d k v) pairs []"

section \<open>contains\_element\<close>

text \<open>\<^verbatim>\<open>any([element_to_search == element for element in list_to_search])\<close>.\<close>

definition contains_element :: "string list \<Rightarrow> string \<Rightarrow> bool" where
  "contains_element list_to_search element_to_search =
     list_ex (\<lambda>element. element_to_search = element) list_to_search"

section \<open>get\_file\_section\<close>

text \<open>
  The test of the scanning loop,
  \<^verbatim>\<open>(identifier in line.lower()) and (line.split()[0].lower() == identifier)\<close>:
  the second conjunct is evaluated only when the first holds, and raises IndexError
  when the line has no token.
\<close>

definition is_marker :: "string \<Rightarrow> string \<Rightarrow> error + bool" where
  "is_marker identifier line =
     (if str_in identifier (lower line)
      then (case str_split line of
              [] \<Rightarrow> Inl IndexError
            | tok # _ \<Rightarrow> Inr (lower tok = identifier))
      else Inr False)"

text \<open>
  The scanning loop over \<^verbatim>\<open>enumerate(lines)\<close>, from position \<open>index\<close> on: the indices
  and the labels of the marker lines, in order.
\<close>

fun find_markers :: "string \<Rightarrow> nat \<Rightarrow> string list \<Rightarrow> error + (nat list \<times> string list)" where
  "find_markers identifier index [] = Inr ([], [])"
| "find_markers identifier index (line # rest) =
     (case is_marker identifier line of
        Inl e \<Rightarrow> Inl e
      | Inr m \<Rightarrow>
          (case find_markers identifier (Suc index) rest of
             Inl e \<Rightarrow> Inl e
           | Inr (indices, labels) \<Rightarrow>
               Inr (if m then (index # indices, replace_newline line # labels)
                    else (indices, labels))))"

text \<open>
  One element of the comprehension
  \<^verbatim>\<open>[lines[index:] if len(indices) == 1 else lines[index:indices[i+1]]
     for i, index in enumerate(indices)]\<close>.
\<close>

definition section_at :: "string list \<Rightarrow> nat list \<Rightarrow> nat \<Rightarrow> error + string list" where
  "section_at lines indices i =
     (let index = indices ! i
      in if length indices = 1 then Inr (drop index lines)
         else (case item indices (i + 1) of
                 Inl e \<Rightarrow> Inl e
               | Inr next_index \<Rightarrow> Inr (slice lines index next_index)))"

definition get_file_section :: "string list \<Rightarrow> string \<Rightarrow> error + (string, string list) dict" where
  "get_file_section lines identifier =
     (case find_markers identifier 0 lines of
        Inl e \<Rightarrow> Inl e
      | Inr (found_indices, found_labels) \<Rightarrow>
          (let (indices, labels) =
                 (if found_indices = [] then ([0], [''full_'' @ identifier])
                  else (found_indices, found_labels))
           in case collect (section_at lines indices) [0..<length indices] of
                Inl e \<Rightarrow> Inl e
              | Inr sections \<Rightarrow> Inr (dict_of (zip labels sections))))"

section \<open>get\_targets\_calibrators\_tags\<close>

text \<open>The returned dictionary \<^verbatim>\<open>{"SCI": sci_lst, "CAL": cal_lst, "TAG": tag_lst}\<close>.\<close>

record night_entry =
  SCI :: "string list"
  CAL :: "string list list"
  TAG :: "string list list"

subsection \<open>The bounds of the table\<close>

text \<open>
  \<^verbatim>\<open>line[0].isdigit()\<close> (also \<^verbatim>\<open>line[0][0].isdigit()\<close>: indexing a one-character string
  at 0 gives it back): IndexError on the empty string.
\<close>

definition starts_with_digit :: "string \<Rightarrow> error + bool" where
  "starts_with_digit line = (case line of [] \<Rightarrow> Inl IndexError | c # _ \<Rightarrow> Inr (isdigit c))"

text \<open>
  \<^verbatim>\<open>[index for index, line in enumerate(lines) if test(line)]\<close>, counting from \<open>index\<close>,
  for a test that may raise.
\<close>

fun indices_where :: "(string \<Rightarrow> error + bool) \<Rightarrow> nat \<Rightarrow> string list \<Rightarrow> error + nat list" where
  "indices_where test index [] = Inr []"
| "indices_where test index (line # rest) =
     (case test line of
        Inl e \<Rightarrow> Inl e
      | Inr b \<Rightarrow>
          (case indices_where test (Suc index) rest of
             Inl e \<Rightarrow> Inl e
           | Inr found \<Rightarrow> Inr (if b then index # found else found)))"

text \<open>
  The first three statements of the function: \<^verbatim>\<open>line_start\<close>, \<^verbatim>\<open>line_end\<close> and the
  rebinding of \<^verbatim>\<open>lines\<close> to the lines between them, a line \<^verbatim>\<open>'\n'\<close> replaced by
  the empty string.
\<close>

definition bounded_lines :: "string list \<Rightarrow> error + string list" where
  "bounded_lines lines =
     (case indices_where starts_with_digit 0 lines of
        Inl e \<Rightarrow> Inl e
      | Inr starts \<Rightarrow>
          (case item starts 0 of
             Inl e \<Rightarrow> Inl e
           | Inr line_start \<Rightarrow>
               (case indices_where (\<lambda>line. Inr (str_in ''calibrator_find'' line)) 0 lines of
                  Inl e \<Rightarrow> Inl e
                | Inr ends \<Rightarrow>
                    (case item ends 0 of
                       Inl e \<Rightarrow> Inl e
                     | Inr line_end \<Rightarrow>
                         Inr (map (\<lambda>line. if line = [CHR 0x0A] then [] else line)
                                (slice lines line_start line_end))))))"

subsection \<open>The classification loop\<close>

text \<open>The variables the loop updates.\<close>

record classifier =
  sci_lst :: "string list"
  cal_lst :: "string list list"
  tag_lst :: "string list list"
  double_sci :: bool
  counter :: nat

definition initial :: classifier where
  "initial = \<lparr>sci_lst = [], cal_lst = [[]], tag_lst = [[]], double_sci = False, counter = 0\<rparr>"

text \<open>
  What the body of the \<^verbatim>\<open>try\<close> does for one line: it runs to its end, or raises with
  the variables as the statements before the raise left them (Python undoes nothing).
\<close>

datatype outcome = Completed classifier | Raised error classifier

fun and_then :: "outcome \<Rightarrow> (classifier \<Rightarrow> outcome) \<Rightarrow> outcome" where
  "and_then (Completed st) f = f st"
| "and_then (Raised e st) f = Raised e st"

text \<open>\<^verbatim>\<open>line.split()[0][0].isdigit()\<close>.\<close>

definition first_token_digit :: "string \<Rightarrow> error + bool" where
  "first_token_digit line =
     (case str_split line of [] \<Rightarrow> Inl IndexError | tok # _ \<Rightarrow> starts_with_digit tok)"

text \<open>
  The condition of the first \<^verbatim>\<open>if\<close>:
  \<^verbatim>\<open>((line == '') or (not line.split()[0][0].isdigit()))
     and (lines[index+1].split()[0][0].isdigit())\<close>.
\<close>

definition group_boundary :: "string list \<Rightarrow> nat \<Rightarrow> error + bool" where
  "group_boundary lines index =
     (let line = lines ! index
      in case (if line = [] then Inr True
               else (case first_token_digit line of Inl e \<Rightarrow> Inl e | Inr d \<Rightarrow> Inr (\<not> d))) of
           Inl e \<Rightarrow> Inl e
         | Inr b \<Rightarrow>
             if b then (case item lines (index + 1) of
                          Inl e \<Rightarrow> Inl e
                        | Inr next_line \<Rightarrow> first_token_digit next_line)
             else Inr False)"

text \<open>
  The condition on the fields of \<^verbatim>\<open>line.split(' ')\<close>:
  \<^verbatim>\<open>(line[0][0].isdigit()) and (len(line) > 2) and (len(line[0].split(":")) == 2)\<close>.
\<close>

definition is_record :: "string list \<Rightarrow> error + bool" where
  "is_record cols =
     (case item cols 0 of
        Inl e \<Rightarrow> Inl e
      | Inr field0 \<Rightarrow>
          (case starts_with_digit field0 of
             Inl e \<Rightarrow> Inl e
           | Inr d \<Rightarrow> Inr (d \<and> length cols > 2 \<and> length (split_sep (CHR '':'') field0) = 2)))"

text \<open>
  \<^verbatim>\<open>cal_lst[i].append(x)\<close> and \<^verbatim>\<open>tag_lst[i].append(x)\<close>: the subscript is evaluated
  first, then the argument \<open>x\<close>, then the group is extended.
\<close>

definition append_cal :: "nat \<Rightarrow> error + string \<Rightarrow> classifier \<Rightarrow> outcome" where
  "append_cal i x st =
     (if i < length (cal_lst st)
      then (case x of
              Inl e \<Rightarrow> Raised e st
            | Inr v \<Rightarrow> Completed (st\<lparr>cal_lst := (cal_lst st)[i := cal_lst st ! i @ [v]]\<rparr>))
      else Raised IndexError st)"

definition append_tag :: "nat \<Rightarrow> error + string \<Rightarrow> classifier \<Rightarrow> outcome" where
  "append_tag i x st =
     (if i < length (tag_lst st)
      then (case x of
              Inl e \<Rightarrow> Raised e st
            | Inr v \<Rightarrow> Completed (st\<lparr>tag_lst := (tag_lst st)[i := tag_lst st ! i @ [v]]\<rparr>))
      else Raised IndexError st)"

text \<open>The calibrator branch (\<^verbatim>\<open>"cal_" in line[1]\<close>), given \<^verbatim>\<open>line[1]\<close>.\<close>

definition add_calibrator :: "string \<Rightarrow> classifier \<Rightarrow> outcome" where
  "add_calibrator field st0 =
     (let temp_cal = split_sep (CHR ''_'') field
      in and_then (append_cal (counter st0) (item temp_cal 2) st0) (\<lambda>st1.
         and_then (append_tag (counter st1) (item temp_cal 1) st1) (\<lambda>st2.
         if double_sci st2
         then and_then (append_cal (counter st2 + 1) (item temp_cal 2)
                          (st2\<lparr>cal_lst := cal_lst st2 @ [[]], tag_lst := tag_lst st2 @ [[]]\<rparr>)) (\<lambda>st3.
              and_then (append_tag (counter st3 + 1) (item temp_cal 1) st3) (\<lambda>st4.
              Completed (st4\<lparr>double_sci := False\<rparr>)))
         else Completed st2)))"

text \<open>
  The condition of the guarded look-ahead:
  \<^verbatim>\<open>lines[index+1][0][0].isdigit() and not ("cal_" in lines[index+1].split(' ')[1])
     and lines[index+2][0][0].isdigit()\<close>.
\<close>

definition second_target_ahead :: "string list \<Rightarrow> nat \<Rightarrow> error + bool" where
  "second_target_ahead lines index =
     (case item lines (index + 1) of
        Inl e \<Rightarrow> Inl e
      | Inr next_line \<Rightarrow>
          (case starts_with_digit next_line of
             Inl e \<Rightarrow> Inl e
           | Inr d \<Rightarrow>
               if \<not> d then Inr False
               else (case item (split_sep (CHR '' '') next_line) 1 of
                       Inl e \<Rightarrow> Inl e
                     | Inr field \<Rightarrow>
                         if str_in ''cal_'' field then Inr False
                         else (case item lines (index + 2) of
                                 Inl e \<Rightarrow> Inl e
                               | Inr after_next \<Rightarrow> starts_with_digit after_next))))"

text \<open>
  The science-target branch.  \<^verbatim>\<open>len(lines)-3\<close> is an integer that may be negative.
  The inner \<^verbatim>\<open>try\<close> swallows what the look-ahead raises; \<^verbatim>\<open>line[3]\<close> is outside it.
\<close>

definition add_target :: "string list \<Rightarrow> nat \<Rightarrow> string list \<Rightarrow> classifier \<Rightarrow> outcome" where
  "add_target lines index cols st0 =
     (let st1 = (if int index \<noteq> int (length lines) - 3
                 then (case second_target_ahead lines index of
                         Inl e \<Rightarrow> st0
                       | Inr b \<Rightarrow> if b then st0\<lparr>double_sci := True\<rparr> else st0)
                 else st0)
      in case item cols 3 of
           Inl e \<Rightarrow> Raised e st1
         | Inr field3 \<Rightarrow>
             Completed (st1\<lparr>sci_lst := sci_lst st1 @
               [if field3 \<noteq> []
                then strip (cols ! 1 @ '' '' @ cols ! 2 @ '' '' @ field3)
                else strip (cols ! 1 @ '' '' @ cols ! 2)]\<rparr>))"

text \<open>The \<^verbatim>\<open>else\<close> branch of the first \<^verbatim>\<open>if\<close>, on the fields of the line.\<close>

definition record_line :: "string list \<Rightarrow> nat \<Rightarrow> string list \<Rightarrow> classifier \<Rightarrow> outcome" where
  "record_line lines index cols st =
     (case is_record cols of
        Inl e \<Rightarrow> Raised e st
      | Inr r \<Rightarrow>
          if r then (if str_in ''cal_'' (cols ! 1) then add_calibrator (cols ! 1) st
                     else add_target lines index cols st)
          else Completed st)"

text \<open>The body of the \<^verbatim>\<open>try\<close> for the line at \<open>index\<close>.\<close>

definition classify_line :: "string list \<Rightarrow> nat \<Rightarrow> classifier \<Rightarrow> outcome" where
  "classify_line lines index st =
     (case group_boundary lines index of
        Inl e \<Rightarrow> Raised e st
      | Inr b \<Rightarrow>
          if b then Completed (st\<lparr>counter := counter st + 1,
                                 cal_lst := cal_lst st @ [[]],
                                 tag_lst := tag_lst st @ [[]]\<rparr>)
          else record_line lines index (split_sep (CHR '' '') (lines ! index)) st)"

text \<open>\<^verbatim>\<open>except: pass\<close>: the loop goes on with the variables as they are.\<close>

fun except_pass :: "outcome \<Rightarrow> classifier" where
  "except_pass (Completed st) = st"
| "except_pass (Raised e st) = st"

text \<open>The loop over the first \<open>n\<close> lines, and over all of them.\<close>

definition classify_upto :: "string list \<Rightarrow> nat \<Rightarrow> classifier" where
  "classify_upto lines n =
     fold (\<lambda>index st. except_pass (classify_line lines index st)) [0..<n] initial"

definition classify :: "string list \<Rightarrow> classifier" where
  "classify lines = classify_upto lines (length lines)"

definition get_targets_calibrators_tags :: "string list \<Rightarrow> error + night_entry" where
  "get_targets_calibrators_tags lines =
     (case bounded_lines lines of
        Inl e \<Rightarrow> Inl e
      | Inr bounded \<Rightarrow>
          (let st = classify bounded
           in Inr \<lparr>SCI = sci_lst st, CAL = cal_lst st, TAG = tag_lst st\<rparr>))"

subsection \<open>The two kinds of record line\<close>



subsection \<open>The invariant of the loop\<close>

text \<open>
  What every iteration keeps: \<^verbatim>\<open>counter\<close> indexes a group of \<^verbatim>\<open>cal_lst\<close>, and
  \<^verbatim>\<open>cal_lst\<close> and \<^verbatim>\<open>tag_lst\<close> have the same number of groups, of the same lengths.
\<close>

definition in_step :: "classifier \<Rightarrow> bool" where
  "in_step st =
     (counter st < length (cal_lst st) \<and> map length (cal_lst st) = map length (tag_lst st))"

section \<open>parse\_night\_plan\<close>

text \<open>
  The names the module binds at its top level: its imports (\<^verbatim>\<open>os\<close>, \<^verbatim>\<open>yaml\<close>,
  \<^verbatim>\<open>warnings\<close>, \<^verbatim>\<open>Path\<close>, \<^verbatim>\<open>Dict\<close>, \<^verbatim>\<open>List\<close>, \<^verbatim>\<open>Optional\<close>) and its four
  functions.  Reading a name that is neither local, nor one of these, nor a builtin
  raises NameError; the two names \<^verbatim>\<open>parse_night_plan\<close> reads this way are
  \<^verbatim>\<open>warning\<close> and \<^verbatim>\<open>output_path\<close>, and neither is a local or a builtin.
\<close>

definition module_names :: "string list" where
  "module_names =
     [''os'', ''yaml'', ''warnings'', ''Path'', ''Dict'', ''List'', ''Optional'',
      ''contains_element'', ''get_file_section'', ''get_targets_calibrators_tags'',
      ''parse_night_plan'']"

definition global_name :: "string \<Rightarrow> error + unit" where
  "global_name name = (if name \<in> set module_names then Inr () else Inl NameError)"

type_synonym run_plan = "(string, night_entry) dict"

type_synonym plan_dictionary = "(string, run_plan) dict"

text \<open>
  The inner loop \<^verbatim>\<open>for sub_label, sub_section in temp_subsection_dict.items()\<close>,
  with \<^verbatim>\<open>nights\<close> as built so far.
\<close>

fun nights_loop :: "(string, string list) dict \<Rightarrow> run_plan \<Rightarrow> error + run_plan" where
  "nights_loop [] nights = Inr nights"
| "nights_loop ((sub_label, sub_section) # rest) nights =
     (if contains_element sub_section ''cal_''
      then (case get_targets_calibrators_tags sub_section of
              Inl e \<Rightarrow> Inl e
            | Inr entry \<Rightarrow> nights_loop rest (setitem nights sub_label entry))
      else nights_loop rest nights)"

text \<open>
  The outer loop \<^verbatim>\<open>for label, section in runs.items()\<close>, with
  \<^verbatim>\<open>night_plan_dict\<close> as built so far.
\<close>

fun runs_loop ::
  "string \<Rightarrow> (string, string list) dict \<Rightarrow> plan_dictionary \<Rightarrow> error + plan_dictionary" where
  "runs_loop sub_identifier [] night_plan_dict = Inr night_plan_dict"
| "runs_loop sub_identifier ((label, section) # rest) night_plan_dict =
     (case get_file_section section sub_identifier of
        Inl e \<Rightarrow> Inl e
      | Inr temp_subsection_dict \<Rightarrow>
          (case nights_loop temp_subsection_dict [] of
             Inl e \<Rightarrow> Inl e
           | Inr nights \<Rightarrow> runs_loop sub_identifier rest (setitem night_plan_dict label nights)))"

text \<open>
  The file system is a map from a path to the list \<^verbatim>\<open>f.readlines()\<close> returns for it;
  a path with no file makes \<^verbatim>\<open>open\<close> raise FileNotFoundError, which the function
  catches.  The result is the warnings emitted and the dictionary returned.
  Serialising the dictionary (\<^verbatim>\<open>yaml.safe_dump\<close>) is not modelled beyond the reading
  of \<^verbatim>\<open>output_path\<close> that precedes it.
\<close>

definition parse_night_plan ::
  "(string \<Rightarrow> string list option) \<Rightarrow> string \<Rightarrow> string \<Rightarrow> string \<Rightarrow> bool
     \<Rightarrow> error + (string list \<times> plan_dictionary)" where
  "parse_night_plan files night_plan_path run_identifier sub_identifier save_to_file =
     (case files night_plan_path of
        None \<Rightarrow>
          (case global_name ''warning'' of
             Inl e \<Rightarrow> Inl e
           | Inr _ \<Rightarrow>
               Inr ([''File '' @ night_plan_path @ '' was not found/does not exist!''], []))
      | Some lines \<Rightarrow>
          (case get_file_section lines run_identifier of
             Inl e \<Rightarrow> Inl e
           | Inr runs \<Rightarrow>
               (case runs_loop sub_identifier runs [] of
                  Inl e \<Rightarrow> Inl e
                | Inr night_plan_dict \<Rightarrow>
                    if save_to_file
                    then (case global_name ''output_path'' of
                            Inl e \<Rightarrow> Inl e
                          | Inr _ \<Rightarrow> Inr ([], night_plan_dict))
                    else Inr ([], night_plan_dict))))"

section \<open>Properties of the string operations\<close>


lemma tokens_started: "tok \<noteq> [] \<Longrightarrow> \<exists>t ts. tokens tok s = (tok @ t) # ts"
proof (induction s arbitrary: tok)
  case Nil
  then show ?case by simp
next
  case (Cons c cs)
  show ?case
  proof (cases "isspace c")
    case True
    with Cons.prems show ?thesis by simp
  next
    case False
    from Cons.IH[of "tok @ [c]"] obtain t ts where "tokens (tok @ [c]) cs = ((tok @ [c]) @ t) # ts"
      by auto
    with False show ?thesis by simp
  qed
qed



lemma lower_char_isspace: "isspace (lower_char c) = isspace c"
proof -
  have "of_char (char_of (of_char c + 32 :: nat)) = (of_char c + 32 :: nat)"
    if "(of_char c :: nat) \<le> 222"
    using that by (simp add: of_char_of)
  then show ?thesis
    by (auto simp: lower_char_def isspace_def Let_def)
qed

lemma startswith_set: "startswith s p \<Longrightarrow> set p \<subseteq> set s"
  by (induction s p rule: startswith.induct) auto

lemma str_in_set: "str_in sub s \<Longrightarrow> set sub \<subseteq> set s"
proof (induction s)
  case Nil
  then show ?case by simp
next
  case (Cons a s)
  from Cons.prems have "startswith (a # s) sub \<or> str_in sub s" by simp
  then show ?case
  proof
    assume "startswith (a # s) sub"
    then show ?thesis by (rule startswith_set)
  next
    assume "str_in sub s"
    from Cons.IH[OF this] show ?thesis by auto
  qed
qed

lemma tokens_nonempty: "\<exists>c\<in>set s. \<not> isspace c \<Longrightarrow> tokens tok s \<noteq> []"
proof (induction s arbitrary: tok)
  case Nil
  then show ?case by simp
next
  case (Cons c cs)
  show ?case
  proof (cases "isspace c")
    case True
    with Cons.prems have "\<exists>c\<in>set cs. \<not> isspace c" by auto
    from Cons.IH[OF this] True show ?thesis by simp
  next
    case False
    from tokens_started[of "tok @ [c]" cs] False show ?thesis by auto
  qed
qed

section \<open>Properties of get\_file\_section\<close>

subsection \<open>The scanning loop\<close>

lemma find_markers_none:
  "\<forall>line\<in>set lines. is_marker identifier line = Inr False
     \<Longrightarrow> find_markers identifier index lines = Inr ([], [])"
  by (induction lines arbitrary: index) simp_all

lemma find_markers_single:
  "j < length lines \<Longrightarrow> is_marker identifier (lines ! j) = Inr True
     \<Longrightarrow> \<forall>i<length lines. i \<noteq> j \<longrightarrow> is_marker identifier (lines ! i) = Inr False
     \<Longrightarrow> find_markers identifier index lines
           = Inr ([index + j], [replace_newline (lines ! j)])"
proof (induction lines arbitrary: index j)
  case Nil
  then show ?case by simp
next
  case (Cons line rest)
  show ?case
  proof (cases j)
    case 0
    have "\<forall>l\<in>set rest. is_marker identifier l = Inr False"
    proof
      fix l assume "l \<in> set rest"
      then obtain i where i: "i < length rest" "rest ! i = l"
        by (auto simp: in_set_conv_nth)
      with Cons.prems(3) 0 have "is_marker identifier ((line # rest) ! Suc i) = Inr False"
        by (metis Suc_less_eq length_Cons nat.distinct(1))
      with i show "is_marker identifier l = Inr False" by simp
    qed
    then have "find_markers identifier (Suc index) rest = Inr ([], [])"
      by (rule find_markers_none)
    with Cons.prems(2) 0 show ?thesis by simp
  next
    case (Suc j')
    with Cons.prems have j': "j' < length rest" "is_marker identifier (rest ! j') = Inr True"
      by simp_all
    have others: "\<forall>i<length rest. i \<noteq> j' \<longrightarrow> is_marker identifier (rest ! i) = Inr False"
    proof (intro allI impI)
      fix i assume "i < length rest" "i \<noteq> j'"
      with Cons.prems(3) Suc have "is_marker identifier ((line # rest) ! Suc i) = Inr False"
        by (metis Suc_less_eq length_Cons nat.inject)
      then show "is_marker identifier (rest ! i) = Inr False" by simp
    qed
    have head: "is_marker identifier line = Inr False"
      using Cons.prems(3) Suc by (metis length_Cons nth_Cons_0 zero_less_Suc nat.distinct(1))
    from Cons.IH[OF j' others, of "Suc index"] head Suc show ?thesis by simp
  qed
qed

text \<open>
  For an identifier with a character that is not whitespace, as \<^verbatim>\<open>"run"\<close> and
  \<^verbatim>\<open>"night"\<close>, the test raises on no line: a line that holds the identifier has a token.
\<close>

lemma is_marker_total:
  assumes "\<exists>c\<in>set identifier. \<not> isspace c"
  shows "\<exists>b. is_marker identifier line = Inr b"
proof (cases "str_in identifier (lower line)")
  case False
  then have "is_marker identifier line = Inr False" by (simp add: is_marker_def)
  then show ?thesis by blast
next
  case True
  from assms obtain x where x: "x \<in> set identifier" "\<not> isspace x" by auto
  with str_in_set[OF True] have "x \<in> set (lower line)" by auto
  then obtain c where "c \<in> set line" "lower_char c = x" by (auto simp: lower_def)
  with x(2) have "\<exists>c\<in>set line. \<not> isspace c"
    using lower_char_isspace by blast
  from tokens_nonempty[OF this, of "[]"] True show ?thesis
    by (auto simp: is_marker_def str_split_def split: list.splits)
qed

subsection \<open>No marker\<close>



subsection \<open>One marker\<close>

text \<open>
  Claim C1 says that with \<open>k \<ge> 1\<close> marker lines the sections returned, concatenated,
  reconstruct the input exactly.  With one marker on the second line, the one section
  returned starts at the marker: the line before it is in no section.
\<close>

theorem get_file_section_preamble_dropped:
  "find_markers ''run'' 0 [''header\<newline>'', ''run 1\<newline>''] = Inr ([1], [''run 1'']) \<and>
   get_file_section [''header\<newline>'', ''run 1\<newline>''] ''run''
     = Inr [(''run 1'', [''run 1\<newline>''])] \<and>
   concat (map snd [(''run 1'', [''run 1\<newline>''])]) \<noteq> [''header\<newline>'', ''run 1\<newline>'']"
  by code_simp

text \<open>
  Claim C1, amended: when exactly one line of the input, the line at index \<open>j\<close>, is a
  marker for the identifier, \<^verbatim>\<open>get_file_section\<close> returns exactly one entry, labelled
  with the marker line without its newlines, whose section runs from the marker line to
  the end of the input; the sections concatenated are the input from the marker on, and
  they are the whole input exactly when the marker is the first line.
\<close>

theorem get_file_section_single_marker:
  assumes "j < length lines"
    and "is_marker identifier (lines ! j) = Inr True"
    and "\<forall>i<length lines. i \<noteq> j \<longrightarrow> is_marker identifier (lines ! i) = Inr False"
  shows "get_file_section lines identifier = Inr [(replace_newline (lines ! j), drop j lines)]
         \<and> (concat (map snd [(replace_newline (lines ! j), drop j lines)]) = lines \<longleftrightarrow> j = 0)"
proof -
  have "drop j lines = lines \<longleftrightarrow> j = 0"
  proof
    assume "drop j lines = lines"
    then have "length (drop j lines) = length lines" by simp
    with assms(1) show "j = 0" by simp
  qed simp
  with find_markers_single[OF assms, of 0] show ?thesis
    by (simp add: get_file_section_def section_at_def dict_of_def)
qed

theorem get_file_section_single_marker_witness:
  "(0::nat) < length [''Run 5, P109\<newline>'', ''night 1\<newline>'', ''1: MY Lup\<newline>''] \<and>
   is_marker ''run'' ''Run 5, P109\<newline>'' = Inr True \<and>
   is_marker ''run'' ''night 1\<newline>'' = Inr False \<and>
   is_marker ''run'' ''1: MY Lup\<newline>'' = Inr False \<and>
   get_file_section [''Run 5, P109\<newline>'', ''night 1\<newline>'', ''1: MY Lup\<newline>''] ''run''
     = Inr [(''Run 5, P109'', [''Run 5, P109\<newline>'', ''night 1\<newline>'', ''1: MY Lup\<newline>''])]"
proof -
  let ?lines = "[''Run 5, P109\<newline>'', ''night 1\<newline>'', ''1: MY Lup\<newline>'']"
  have m0: "is_marker ''run'' ''Run 5, P109\<newline>'' = Inr True" by code_simp
  have m1: "is_marker ''run'' ''night 1\<newline>'' = Inr False" by code_simp
  have m2: "is_marker ''run'' ''1: MY Lup\<newline>'' = Inr False" by code_simp
  have h1: "0 < length ?lines" by simp
  have h2: "is_marker ''run'' (?lines ! 0) = Inr True" using m0 by simp
  have h3: "\<forall>i<length ?lines. i \<noteq> 0 \<longrightarrow> is_marker ''run'' (?lines ! i) = Inr False"
    using m1 m2 by (simp add: less_Suc_eq nth_Cons')
  have l: "replace_newline ''Run 5, P109\<newline>'' = ''Run 5, P109''" by code_simp
  from get_file_section_single_marker[OF h1 h2 h3] m0 m1 m2 l show ?thesis by simp
qed

subsection \<open>Two or more markers\<close>

text \<open>
  With two or more markers the comprehension reads \<^verbatim>\<open>indices[i+1]\<close> for the last
  marker, past the end of \<^verbatim>\<open>indices\<close>.
\<close>

lemma collect_raises:
  "x \<in> set xs \<Longrightarrow> f x = Inl IndexError \<Longrightarrow> (\<And>y e. f y = Inl e \<Longrightarrow> e = IndexError)
     \<Longrightarrow> collect f xs = Inl IndexError"
proof (induction xs)
  case Nil
  then show ?case by simp
next
  case (Cons a xs)
  show ?case
  proof (cases "f a")
    case (Inl e)
    with Cons.prems(3) show ?thesis by auto
  next
    case (Inr y)
    with Cons.prems have "x \<in> set xs" by auto
    from Cons.IH[OF this Cons.prems(2,3)] Inr show ?thesis by simp
  qed
qed

lemma section_at_error: "section_at lines indices i = Inl e \<Longrightarrow> e = IndexError"
  by (auto simp: section_at_def item_def Let_def split: if_splits)

lemma get_file_section_many_markers:
  assumes "find_markers identifier 0 lines = Inr (indices, labels)"
    and "2 \<le> length indices"
  shows "get_file_section lines identifier = Inl IndexError"
proof -
  let ?n = "length indices"
  have last: "section_at lines indices (?n - 1) = Inl IndexError"
    using assms(2) by (simp add: section_at_def item_def)
  have mem: "?n - 1 \<in> set [0..<?n]" using assms(2) by simp
  have "collect (section_at lines indices) [0..<?n] = Inl IndexError"
    by (rule collect_raises[where f = "section_at lines indices", OF mem last])
       (rule section_at_error)
  moreover have "indices \<noteq> []" using assms(2) by auto
  ultimately show ?thesis using assms(1) by (simp add: get_file_section_def)
qed

section \<open>Properties of the bounds of the table\<close>

lemma indices_where_error:
  "indices_where starts_with_digit index lines = Inl e \<Longrightarrow> e = IndexError"
proof (induction lines arbitrary: index)
  case Nil
  then show ?case by simp
next
  case (Cons line rest)
  then show ?case
    by (auto simp: starts_with_digit_def split: sum.splits list.splits)
qed

lemma indices_where_no_digit:
  "\<forall>line\<in>set lines. starts_with_digit line \<noteq> Inr True
     \<Longrightarrow> indices_where starts_with_digit index lines = Inr found \<Longrightarrow> found = []"
proof (induction lines arbitrary: index found)
  case Nil
  then show ?case by simp
next
  case (Cons line rest)
  then show ?case
    by (auto split: sum.splits if_splits)
qed

lemma indices_where_total_none:
  "\<forall>line\<in>set lines. \<not> P line
     \<Longrightarrow> indices_where (\<lambda>line. Inr (P line)) index lines = Inr []"
  by (induction lines arbitrary: index) simp_all

lemma indices_where_total:
  "indices_where (\<lambda>line. Inr (P line)) index lines \<noteq> Inl e"
  by (induction lines arbitrary: index) (auto split: sum.splits)

lemma bounded_lines_error: "bounded_lines lines = Inl e \<Longrightarrow> e = IndexError"
  by (auto simp: bounded_lines_def item_def indices_where_total
           split: sum.splits if_splits dest: indices_where_error)

text \<open>
  Claim C10: on an input with no line whose first character is a digit, or with no line
  containing \<^verbatim>\<open>calibrator_find\<close>, \<^verbatim>\<open>get_targets_calibrators_tags\<close> raises IndexError
  while computing the bounds: the \<^verbatim>\<open>try\<close> of the classification loop is not reached.
\<close>

theorem bounds_raise:
  assumes "(\<forall>line\<in>set lines. starts_with_digit line \<noteq> Inr True)
           \<or> (\<forall>line\<in>set lines. \<not> str_in ''calibrator_find'' line)"
  shows "get_targets_calibrators_tags lines = Inl IndexError"
proof -
  have "\<exists>e. bounded_lines lines = Inl e"
    using assms
  proof
    assume nd: "\<forall>line\<in>set lines. starts_with_digit line \<noteq> Inr True"
    show ?thesis
    proof (cases "indices_where starts_with_digit 0 lines")
      case (Inl e)
      then show ?thesis by (simp add: bounded_lines_def)
    next
      case (Inr found)
      with indices_where_no_digit[OF nd Inr] show ?thesis
        by (simp add: bounded_lines_def item_def)
    qed
  next
    assume "\<forall>line\<in>set lines. \<not> str_in ''calibrator_find'' line"
    from indices_where_total_none[OF this, of 0] show ?thesis
      by (simp add: bounded_lines_def item_def split: sum.splits)
  qed
  then obtain e where e: "bounded_lines lines = Inl e" ..
  with bounded_lines_error[OF e] show ?thesis
    by (simp add: get_targets_calibrators_tags_def)
qed

theorem bounds_raise_witness:
  "starts_with_digit ''night 1\<newline>'' \<noteq> Inr True \<and>
   starts_with_digit ''calibrator_find\<newline>'' \<noteq> Inr True \<and>
   get_targets_calibrators_tags [''night 1\<newline>'', ''calibrator_find\<newline>''] = Inl IndexError"
proof -
  have h: "\<forall>line\<in>set [''night 1\<newline>'', ''calibrator_find\<newline>'']. starts_with_digit line \<noteq> Inr True"
    by (simp add: starts_with_digit_def isdigit_def)
  from bounds_raise[OF disjI1, OF h] h show ?thesis by simp
qed

section \<open>Properties of the classification loop\<close>

subsection \<open>The invariant\<close>

lemma same_shape_length: "map length cs = map length ts \<Longrightarrow> length ts = length cs"
  by (metis length_map)

lemma same_shape_nth:
  "map length cs = map length ts \<Longrightarrow> i < length cs \<Longrightarrow> length (cs ! i) = length (ts ! i)"
  by (metis length_map nth_map)

lemma same_shape_update:
  assumes "map length cs = map length ts" and "i < length cs"
  shows "map length (cs[i := cs ! i @ [x]]) = map length (ts[i := ts ! i @ [y]])"
  using assms same_shape_nth[OF assms] by (simp add: map_update)

lemma in_step_initial: "in_step initial"
  by (simp add: in_step_def initial_def)

lemma add_calibrator_raises:
  "length (split_sep (CHR ''_'') field) < 3 \<Longrightarrow> add_calibrator field st = Raised IndexError st"
  by (simp add: add_calibrator_def append_cal_def item_def Let_def)

lemma append_cal_Inr:
  "i < length (cal_lst st) \<Longrightarrow>
   append_cal i (Inr v) st = Completed (st\<lparr>cal_lst := (cal_lst st)[i := cal_lst st ! i @ [v]]\<rparr>)"
  by (simp add: append_cal_def)

lemma append_tag_Inr:
  "i < length (tag_lst st) \<Longrightarrow>
   append_tag i (Inr v) st = Completed (st\<lparr>tag_lst := (tag_lst st)[i := tag_lst st ! i @ [v]]\<rparr>)"
  by (simp add: append_tag_def)

lemma add_calibrator_completes:
  assumes "3 \<le> length (split_sep (CHR ''_'') field)" and "in_step st"
  shows "add_calibrator field st =
           (let temp_cal = split_sep (CHR ''_'') field;
                c = counter st;
                cal1 = (cal_lst st)[c := cal_lst st ! c @ [temp_cal ! 2]];
                tag1 = (tag_lst st)[c := tag_lst st ! c @ [temp_cal ! 1]]
            in if double_sci st
               then Completed (st\<lparr>cal_lst := (cal1 @ [[]])[c + 1 := (cal1 @ [[]]) ! (c + 1) @ [temp_cal ! 2]],
                                  tag_lst := (tag1 @ [[]])[c + 1 := (tag1 @ [[]]) ! (c + 1) @ [temp_cal ! 1]],
                                  double_sci := False\<rparr>)
               else Completed (st\<lparr>cal_lst := cal1, tag_lst := tag1\<rparr>))"
proof -
  from assms(2) have c: "counter st < length (cal_lst st)"
    and l: "length (tag_lst st) = length (cal_lst st)"
    by (auto simp: in_step_def dest: same_shape_length)
  have i2: "item (split_sep (CHR ''_'') field) 2 = Inr (split_sep (CHR ''_'') field ! 2)"
    and i1: "item (split_sep (CHR ''_'') field) 1 = Inr (split_sep (CHR ''_'') field ! 1)"
    using assms(1) by (simp_all add: item_def)
  show ?thesis
    unfolding add_calibrator_def Let_def i1 i2
    using c l by (simp add: append_cal_Inr append_tag_Inr)
qed

lemma add_calibrator_in_step:
  assumes "in_step st"
  shows "in_step (except_pass (add_calibrator field st))"
proof (cases "length (split_sep (CHR ''_'') field) < 3")
  case True
  with assms show ?thesis by (simp add: add_calibrator_raises)
next
  case False
  then have len: "3 \<le> length (split_sep (CHR ''_'') field)" by simp
  from assms have c: "counter st < length (cal_lst st)"
    and m: "map length (cal_lst st) = map length (tag_lst st)"
    by (simp_all add: in_step_def)
  let ?c = "counter st"
  let ?t = "split_sep (CHR ''_'') field"
  let ?cal1 = "(cal_lst st)[?c := cal_lst st ! ?c @ [?t ! 2]]"
  let ?tag1 = "(tag_lst st)[?c := tag_lst st ! ?c @ [?t ! 1]]"
  have m1: "map length ?cal1 = map length ?tag1"
    by (rule same_shape_update[OF m c])
  then have m2: "map length (?cal1 @ [[]]) = map length (?tag1 @ [[]])" by simp
  have c2: "?c + 1 < length (?cal1 @ [[]])" using c by simp
  have m3: "map length ((?cal1 @ [[]])[?c + 1 := (?cal1 @ [[]]) ! (?c + 1) @ [?t ! 2]])
          = map length ((?tag1 @ [[]])[?c + 1 := (?tag1 @ [[]]) ! (?c + 1) @ [?t ! 1]])"
    by (rule same_shape_update[OF m2 c2])
  show ?thesis
    unfolding add_calibrator_completes[OF len assms] Let_def
    using m1 m3 c by (simp add: in_step_def)
qed


lemma add_target_frame:
  "cal_lst (except_pass (add_target lines index cols st)) = cal_lst st \<and>
   tag_lst (except_pass (add_target lines index cols st)) = tag_lst st \<and>
   counter (except_pass (add_target lines index cols st)) = counter st"
  by (simp add: add_target_def Let_def split: sum.splits)


lemma add_target_in_step:
  "in_step st \<Longrightarrow> in_step (except_pass (add_target lines index cols st))"
  using add_target_frame[of lines index cols st] by (simp add: in_step_def)

lemma record_line_in_step:
  "in_step st \<Longrightarrow> in_step (except_pass (record_line lines index cols st))"
  by (simp add: record_line_def add_calibrator_in_step add_target_in_step split: sum.splits)

lemma classify_line_in_step:
  assumes "in_step st"
  shows "in_step (except_pass (classify_line lines index st))"
proof (cases "group_boundary lines index")
  case (Inl e)
  with assms show ?thesis by (simp add: classify_line_def)
next
  case (Inr b)
  show ?thesis
  proof (cases b)
    case True
    with Inr assms show ?thesis by (simp add: classify_line_def in_step_def)
  next
    case False
    with Inr record_line_in_step[OF assms] show ?thesis by (simp add: classify_line_def)
  qed
qed

lemma classify_upto_Suc:
  "classify_upto lines (Suc n) = except_pass (classify_line lines n (classify_upto lines n))"
  by (simp add: classify_upto_def)

lemma classify_upto_in_step: "in_step (classify_upto lines n)"
proof (induction n)
  case 0
  show ?case by (simp add: classify_upto_def in_step_initial)
next
  case (Suc n)
  then show ?case by (simp add: classify_upto_Suc classify_line_in_step)
qed


subsection \<open>Lines that start with a digit\<close>











subsection \<open>The shape of the result\<close>

text \<open>
  Claim C3: on every input on which \<^verbatim>\<open>get_targets_calibrators_tags\<close> returns an
  entry, \<^verbatim>\<open>CAL\<close> and \<^verbatim>\<open>TAG\<close> have the same length, and for every index \<open>i\<close> the
  group \<^verbatim>\<open>CAL[i]\<close> has the length of \<^verbatim>\<open>TAG[i]\<close>.
\<close>

theorem cal_tag_same_shape:
  assumes "get_targets_calibrators_tags lines = Inr entry"
  shows "length (CAL entry) = length (TAG entry) \<and>
         (\<forall>i<length (CAL entry). length (CAL entry ! i) = length (TAG entry ! i))"
proof -
  from assms obtain bounded where
    entry: "entry = \<lparr>SCI = sci_lst (classify bounded), CAL = cal_lst (classify bounded),
                     TAG = tag_lst (classify bounded)\<rparr>"
    by (auto simp: get_targets_calibrators_tags_def Let_def split: sum.splits)
  have "in_step (classify bounded)"
    by (simp add: classify_def classify_upto_in_step)
  then have m: "map length (CAL entry) = map length (TAG entry)"
    by (simp add: entry in_step_def)
  from same_shape_length[OF m] same_shape_nth[OF m] show ?thesis by simp
qed

theorem cal_tag_same_shape_witness:
  "get_targets_calibrators_tags
     [''1: A B '', ''2: C D '', ''3: cal_LN_HD1 x'', ''\<newline>'', ''calibrator_find'']
     = Inr \<lparr>SCI = [''A B'', ''C D''], CAL = [[''HD1''], [''HD1'']], TAG = [[''LN''], [''LN'']]\<rparr> \<and>
   length [[''HD1''], [''HD1'']] = length [[''LN''], [''LN'']] \<and>
   length ([[''HD1''], [''HD1'']] ! 1) = length ([[''LN''], [''LN'']] ! 1)"
proof -
  have h: "get_targets_calibrators_tags
     [''1: A B '', ''2: C D '', ''3: cal_LN_HD1 x'', ''\<newline>'', ''calibrator_find'']
     = Inr \<lparr>SCI = [''A B'', ''C D''], CAL = [[''HD1''], [''HD1'']], TAG = [[''LN''], [''LN'']]\<rparr>"
    by code_simp
  from cal_tag_same_shape[OF h] h show ?thesis by simp
qed

subsection \<open>Lines that raise\<close>




subsection \<open>A calibrator line\<close>



subsection \<open>A science-target line\<close>





subsection \<open>One calibrator for two targets\<close>




section \<open>Properties of parse\_night\_plan\<close>

text \<open>
  Claim C4: for a path whose file does not exist, \<^verbatim>\<open>parse_night_plan\<close> should emit a
  warning and return an empty mapping, raising nothing.  The handler of
  FileNotFoundError calls \<^verbatim>\<open>warning.warn\<close>, and the module binds \<^verbatim>\<open>warnings\<close>, not
  \<^verbatim>\<open>warning\<close>: whatever the other arguments, the call ends in NameError.
\<close>

theorem parse_night_plan_missing_file:
  assumes "files night_plan_path = None"
  shows "parse_night_plan files night_plan_path run_identifier sub_identifier save_to_file
           = Inl NameError"
  using assms by (simp add: parse_night_plan_def global_name_def module_names_def)

theorem parse_night_plan_missing_file_witness:
  "(\<lambda>path. if path = ''plan.txt'' then Some [''run 1\<newline>''] else None) ''missing.txt'' = None \<and>
   parse_night_plan (\<lambda>path. if path = ''plan.txt'' then Some [''run 1\<newline>''] else None)
       ''missing.txt'' ''run'' ''night'' False
     = Inl NameError"
  using parse_night_plan_missing_file
          [of "\<lambda>path. if path = ''plan.txt'' then Some [''run 1\<newline>''] else None"
              "''missing.txt''" "''run''" "''night''" False]
  by simp

text \<open>
  Claim C2: a plan with one \<^verbatim>\<open>run\<close> line and two \<^verbatim>\<open>night\<close> lines, the second night
  holding the line \<^verbatim>\<open>cal_\<close> and the first none, should give one run with one night.
  Splitting the run's section at its two \<^verbatim>\<open>night\<close> markers reads
  \<^verbatim>\<open>indices[i+1]\<close> for the last marker, and the call ends in IndexError.
\<close>

theorem parse_night_plan_two_nights:
  "parse_night_plan
     (\<lambda>path. if path = ''plan.txt''
              then Some [''run 1\<newline>'', ''night 1\<newline>'', ''1: cal_LN_HD1 x\<newline>'',
                         ''calibrator_find\<newline>'', ''night 2\<newline>'', ''cal_'']
              else None)
     ''plan.txt'' ''run'' ''night'' False
   = Inl IndexError"
  by code_simp

end
